theory Spec2Isabelle
  imports Main
begin


section \<open>Data model\<close>

text \<open>
  JavaScript numbers are IEEE doubles. The model keeps the integer values (exact in a
  double up to \<open>2^53\<close>) and the value \<open>NaN\<close>, which \<open>Number(...)\<close> produces for a
  cell that is not numeric. Fractions and infinities are outside the model.
\<close>

datatype jsnum = Num int | NaN

text \<open>\<open>a + b\<close> on numbers: \<open>NaN\<close> absorbs.\<close>

fun num_add :: "jsnum \<Rightarrow> jsnum \<Rightarrow> jsnum" where
  "num_add (Num a) (Num b) = Num (a + b)"
| "num_add _ _ = NaN"

text \<open>\<open>x > 0\<close>: every comparison with \<open>NaN\<close> is false.\<close>

fun num_pos :: "jsnum \<Rightarrow> bool" where
  "num_pos (Num a) = (0 < a)"
| "num_pos NaN = False"

datatype status = Booked | Checked_in | Cancelled

record BookingRow =
  Booking_ID :: string
  Date :: int
  Slot_ID :: jsnum
  Start_Time :: string
  End_Time :: string
  Gender :: string
  Seats_Booked :: jsnum
  Pilgrim_Name :: string
  Nationality :: string
  Pilgrim_ID :: string
  Group :: "string option"
  Status :: status
  Created_At :: string

record SlotRow =
  Slot_ID :: jsnum
  Start_Time :: string
  End_Time :: string
  Day :: string
  Gender :: string
  Capacity :: jsnum

text \<open>
  \<open>ExpandedRow.Date\<close> is the text \<open>YYYY-MM-DD\<close> that \<open>fmtDate\<close> returns. The model
  keeps the calendar day that text denotes, as the number of days since 1970-01-01
  (day 0 is a Thursday); the text and the day number determine each other.
\<close>

record ExpandedRow = SlotRow +
  Date :: int

section \<open>Date helpers\<close>

text \<open>
  A \<open>Date\<close> object is its time value: milliseconds since 1970-01-01T00:00:00Z, or
  \<open>NaN\<close> for an Invalid Date (\<open>None\<close> below). Local time is the time value plus the
  offset of the zone in force at that instant.
\<close>

definition msPerDay :: int where
  "msPerDay = 86400000"

definition msPerMinute :: int where
  "msPerMinute = 60000"

subsection \<open>The time zone of the browser\<close>

text \<open>
  The zone is data of the environment: the offset before the first change, and the
  changes of offset, each the instant of the change and the offset from then on
  (all in milliseconds). \<open>offset_from\<close> is the offset in force at an instant.
\<close>

fun offset_from :: "int \<Rightarrow> (int \<times> int) list \<Rightarrow> int \<Rightarrow> int" where
  "offset_from off [] t = off"
| "offset_from off ((at, off') # cs) t = (if t < at then off else offset_from off' cs t)"

text \<open>
  The instant of a local time, as the language defines it: the first instant at which
  the local clock shows that time; a local time that a forward change skips is read
  with the offset in force before the change.
\<close>

fun utc_from :: "int \<Rightarrow> (int \<times> int) list \<Rightarrow> int \<Rightarrow> int" where
  "utc_from off [] lt = lt - off"
| "utc_from off ((at, off') # cs) lt =
     (if lt - off < at then lt - off
      else if lt - off' < at then lt - off
      else utc_from off' cs lt)"

text \<open>
  Zone data list their changes in ascending order of time and never set the clock back
  by more than a day in all: no offset is more than a day below an earlier one. (The
  largest steps on record are the changes of a whole day at the date line.)
\<close>

fun set_back_ok :: "int \<Rightarrow> (int \<times> int) list \<Rightarrow> bool" where
  "set_back_ok off [] = True"
| "set_back_ok off ((at, off') # cs) =
     (list_all (\<lambda>(a, x). off - x \<le> msPerDay) ((at, off') # cs) \<and> set_back_ok off' cs)"

typedef zone =
  "{(off :: int, cs :: (int \<times> int) list). sorted (map fst cs) \<and> set_back_ok off cs}"
  by (rule exI [of _ "(0, [])"]) simp

setup_lifting type_definition_zone

text \<open>\<open>LocalTime(t)\<close> and \<open>UTC(t)\<close> of the language, in the zone \<open>z\<close>.\<close>

lift_definition LocalTime :: "zone \<Rightarrow> int \<Rightarrow> int" is
  "\<lambda>(off, cs) t. t + offset_from off cs t" .

lift_definition UTC :: "zone \<Rightarrow> int \<Rightarrow> int" is
  "\<lambda>(off, cs) lt. utc_from off cs lt" .

text \<open>
  Some zones. A zone whose offset is \<open>tz\<close> minutes throughout (180 is Asia/Riyadh, 0
  is UTC). Europe/London around the start of summer time in 2024: offset 0 until
  2024-03-31T01:00Z, one hour from then on. Africa/Cairo around the start of summer
  time in 2024: two hours until 2024-04-25T22:00Z, which is local midnight of
  2024-04-26, three hours from then on. Pacific/Apia around the end of 2011: ten hours
  behind UTC until 2011-12-30T10:00Z, fourteen hours ahead from then on, so that the
  local day 2011-12-30 did not take place.
\<close>

lift_definition fixed_zone :: "int \<Rightarrow> zone" is
  "\<lambda>tz. (tz * msPerMinute, [])"
  by simp

lift_definition London_2024 :: zone is
  "(0, [(1711846800000, 3600000)])"
  by (simp add: msPerDay_def)

lift_definition Cairo_2024 :: zone is
  "(7200000, [(1714082400000, 10800000)])"
  by (simp add: msPerDay_def)

lift_definition Apia_2011 :: zone is
  "(- 36000000, [(1325239200000, 50400000)])"
  by (simp add: msPerDay_def)

subsection \<open>Dates\<close>

text \<open>
  A date input holds the text \<open>YYYY-MM-DD\<close> of a calendar day, kept here as the
  number of the day since 1970-01-01. The language reads a year of four digits, the
  years 0001 to 9999 of the inputs (days -719162 to 2932896); the text of a later year
  is outside its date-time format and is taken to give an Invalid Date.
\<close>

definition valid_day :: "int \<Rightarrow> bool" where
  "valid_day n \<longleftrightarrow> - 719162 \<le> n \<and> n \<le> 2932896"

text \<open>The instant of local midnight of day \<open>n\<close>.\<close>

definition localMidnight :: "zone \<Rightarrow> int \<Rightarrow> int" where
  "localMidnight z n = UTC z (n * msPerDay)"

text \<open>
  \<open>new Date(s + "T00:00:00")\<close> for the text \<open>s\<close> of day \<open>n\<close>: a date-time text
  without offset is read as local time.
\<close>

definition parseLocal :: "zone \<Rightarrow> int \<Rightarrow> int option" where
  "parseLocal z n = (if valid_day n then Some (localMidnight z n) else None)"

text \<open>\<open>fmtDate(d) = d.toISOString().slice(0,10)\<close>: the calendar day of \<open>d\<close> in UTC.\<close>

definition fmtDate :: "int \<Rightarrow> int" where
  "fmtDate d = d div msPerDay"

text \<open>
  \<open>d.getDay()\<close>: the weekday of \<open>d\<close> in local time, 0 for Sunday; it is below 7,
  so \<open>weekdayName\<close> always reads inside its array.
\<close>

definition getDay :: "zone \<Rightarrow> int \<Rightarrow> nat" where
  "getDay z d = nat ((LocalTime z d div msPerDay + 4) mod 7)"

definition weekdayName :: "zone \<Rightarrow> int \<Rightarrow> string" where
  "weekdayName z d =
     [''Sunday'', ''Monday'', ''Tuesday'', ''Wednesday'', ''Thursday'', ''Friday'', ''Saturday'']
       ! getDay z d"

text \<open>
  \<open>d.setDate(d.getDate()+1)\<close>: the same local time of day on the next local day,
  turned back into an instant.
\<close>

definition nextDay :: "zone \<Rightarrow> int \<Rightarrow> int" where
  "nextDay z d = UTC z (LocalTime z d + msPerDay)"

text \<open>
  The generator \<open>dateRange\<close>: \<open>d = new Date(from); while (d <= to) { yield new Date(d);
  d.setDate(d.getDate()+1) }\<close>. The values it yields are collected in a list. The loop
  ends because \<open>setDate\<close> moves \<open>d\<close> forward in every zone.
\<close>

function dateRange_from :: "zone \<Rightarrow> int \<Rightarrow> int \<Rightarrow> int list" where
  "dateRange_from z d to = (if d \<le> to then d # dateRange_from z (nextDay z d) to else [])"
  by pat_completeness auto
termination
proof (relation "measure (\<lambda>(z, d, to). nat (to - d + 1))")
  show "wf (measure (\<lambda>(z, d, to). nat (to - d + 1)))"
    by simp
next
  fix z :: zone and d to :: int
  assume le: "d \<le> to"
  have lower: "m \<le> utc_from off cs lt"
    if "m \<le> lt - off" and "\<forall>p\<in>set cs. m \<le> fst p" for m off cs lt
    using that by (induction cs arbitrary: off) auto
  have member: "offset_from off cs t = off \<or> offset_from off cs t \<in> snd ` set cs" for off cs t
    by (induction cs arbitrary: off) force+
  have adv: "t < utc_from off cs (t + offset_from off cs t + msPerDay)"
    if "sorted (map fst cs)" and "set_back_ok off cs" for off cs t
    using that
  proof (induction cs arbitrary: off)
    case Nil
    then show ?case by (simp add: msPerDay_def)
  next
    case (Cons c cs)
    obtain at off' where c: "c = (at, off')" by (cases c)
    from Cons.prems c have srt: "sorted (map fst cs)" and later: "\<forall>p\<in>set cs. at \<le> fst p"
      and ok': "set_back_ok off' cs" and bk1: "off - off' \<le> msPerDay"
      and bks: "\<forall>p\<in>set cs. off - snd p \<le> msPerDay"
      by (auto simp: list_all_iff)
    show ?case
    proof (cases "t < at")
      case True
      let ?lt = "t + off + msPerDay"
      show ?thesis
      proof (cases "?lt - off < at \<or> ?lt - off' < at")
        case True
        with \<open>t < at\<close> c show ?thesis by (auto simp: msPerDay_def)
      next
        case False
        then have "t + 1 \<le> ?lt - off'" using \<open>t < at\<close> by simp
        moreover from later \<open>t < at\<close> have "\<forall>p\<in>set cs. t + 1 \<le> fst p" by auto
        ultimately have "t + 1 \<le> utc_from off' cs ?lt" by (rule lower)
        with False \<open>t < at\<close> c show ?thesis by simp
      qed
    next
      case False
      let ?oc = "offset_from off' cs t"
      let ?lt = "t + ?oc + msPerDay"
      from member [of off' cs t] bk1 bks have bo: "off - ?oc \<le> msPerDay"
        by auto
      have IH: "t < utc_from off' cs ?lt"
        by (rule Cons.IH [OF srt ok'])
      show ?thesis
      proof (cases "?lt - off < at")
        case True
        with False bo show ?thesis by simp
      next
        case nb: False
        show ?thesis
        proof (cases "?lt - off' < at")
          case True
          have "?oc \<noteq> off - msPerDay"
          proof
            assume eq: "?oc = off - msPerDay"
            with True False have "off < off'" by simp
            from member [of off' cs t] show False
            proof
              assume "?oc = off'"
              with eq \<open>off < off'\<close> show False by (simp add: msPerDay_def)
            next
              assume "?oc \<in> snd ` set cs"
              then obtain p where "p \<in> set cs" "snd p = ?oc" by auto
              moreover from ok' have "\<forall>p\<in>set cs. off' - snd p \<le> msPerDay"
                by (cases cs) (auto simp: list_all_iff)
              ultimately have "off' - ?oc \<le> msPerDay" by auto
              with eq \<open>off < off'\<close> show False by simp
            qed
          qed
          with bo have "off - ?oc < msPerDay" by simp
          with True nb False c show ?thesis by simp
        next
          case False
          with nb \<open>\<not> t < at\<close> c IH show ?thesis by simp
        qed
      qed
    qed
  qed
  obtain off cs where rep: "Rep_zone z = (off, cs)"
    by (cases "Rep_zone z")
  with Rep_zone [of z] have "sorted (map fst cs)" and "set_back_ok off cs"
    by auto
  then have "d < utc_from off cs (d + offset_from off cs d + msPerDay)"
    by (rule adv)
  with rep have "d < nextDay z d"
    by (simp add: nextDay_def LocalTime.rep_eq UTC.rep_eq)
  with le show "((z, nextDay z d, to), (z, d, to)) \<in> measure (\<lambda>(z, d, to). nat (to - d + 1))"
    by simp
qed

declare dateRange_from.simps [simp del]

text \<open>
  \<open>dateRange(from, to)\<close> on two \<open>Date\<close> objects: a comparison with an Invalid Date is
  false, so nothing is yielded when either of them is invalid.
\<close>

definition dateRange :: "zone \<Rightarrow> int option \<Rightarrow> int option \<Rightarrow> int list" where
  "dateRange z fromD toD =
     (case (fromD, toD) of
        (Some d, Some to) \<Rightarrow> dateRange_from z d to
      | _ \<Rightarrow> [])"

section \<open>Validate and preview: expansion\<close>

text \<open>The object \<open>{ ...r, Date: fmtDate(d) }\<close>.\<close>

definition with_Date :: "SlotRow \<Rightarrow> int \<Rightarrow> ExpandedRow" where
  "with_Date r dt =
     \<lparr> Slot_ID = Slot_ID r, Start_Time = Start_Time r, End_Time = End_Time r,
       Day = Day r, Gender = Gender r, Capacity = Capacity r, Date = dt \<rparr>"

text \<open>
  The inner loop \<open>for (const r of norm) { if (r.Day === "All" || r.Day === wd)
  expanded.push(...) }\<close>, with the array \<open>expanded\<close> passed through.
\<close>

fun push_matching :: "string \<Rightarrow> int \<Rightarrow> SlotRow list \<Rightarrow> ExpandedRow list \<Rightarrow> ExpandedRow list" where
  "push_matching wd dt [] expanded = expanded"
| "push_matching wd dt (r # rs) expanded =
     push_matching wd dt rs
       (if Day r = ''All'' \<or> Day r = wd then expanded @ [with_Date r dt] else expanded)"

text \<open>The outer loop \<open>for (const d of dateRange(from, to)) { ... }\<close>.\<close>

fun expand_loop :: "zone \<Rightarrow> int list \<Rightarrow> SlotRow list \<Rightarrow> ExpandedRow list \<Rightarrow> ExpandedRow list" where
  "expand_loop z [] norm expanded = expanded"
| "expand_loop z (d # ds) norm expanded =
     expand_loop z ds norm (push_matching (weekdayName z d) (fmtDate d) norm expanded)"

text \<open>
  Lines 135 to 141 of the handler: the expansion of the normalised templates over the
  days \<open>fromDay\<close> to \<open>toDay\<close> (day numbers of the two date inputs).
\<close>

definition expand :: "zone \<Rightarrow> SlotRow list \<Rightarrow> int \<Rightarrow> int \<Rightarrow> ExpandedRow list" where
  "expand z norm fromDay toDay =
     expand_loop z (dateRange z (parseLocal z fromDay) (parseLocal z toDay)) norm []"

section \<open>Validate and preview: conflict detection\<close>

text \<open>
  \<open>conflicts\<close> is an object used as a dictionary from the key text
  \<open>`${r.Date}|${r.Slot_ID}`\<close> to a pair of counters. The date text has a fixed
  width and the number text determines the number, so the key text and the pair
  (date, slot id) determine each other; the model uses the pair. (A key text contains
  \<open>|\<close>, so it is never the name of a member that the object inherits.) \<open>Object.entries\<close>
  lists the keys in the order they were first stored, so the dictionary is an
  association list that grows at its end.
\<close>

record tally =
  men :: nat
  women :: nat

type_synonym conflict_key = "int \<times> jsnum"

text \<open>\<open>(r.Capacity > 0 ? 1 : 0)\<close>.\<close>

definition positive01 :: "jsnum \<Rightarrow> nat" where
  "positive01 c = (if num_pos c then 1 else 0)"

text \<open>\<open>conflicts[key].f += ...\<close>: the stored entry of \<open>key\<close> is changed in place.\<close>

fun update_entry :: "conflict_key \<Rightarrow> (tally \<Rightarrow> tally) \<Rightarrow> (conflict_key \<times> tally) list
    \<Rightarrow> (conflict_key \<times> tally) list" where
  "update_entry key f [] = []"
| "update_entry key f ((k, v) # ps) =
     (if k = key then (k, f v) # ps else (k, v) # update_entry key f ps)"

text \<open>The body of the loop over \<open>expanded\<close>, for one row.\<close>

definition conflict_step :: "ExpandedRow \<Rightarrow> (conflict_key \<times> tally) list
    \<Rightarrow> (conflict_key \<times> tally) list" where
  "conflict_step r conflicts =
     (let key = (Date r, Slot_ID r);
          c1 = (if map_of conflicts key = None
                then conflicts @ [(key, \<lparr> men = 0, women = 0 \<rparr>)] else conflicts);
          c2 = (if Gender r = ''Men''
                then update_entry key (\<lambda>v. v\<lparr> men := men v + positive01 (Capacity r) \<rparr>) c1
                else c1);
          c3 = (if Gender r = ''Women''
                then update_entry key (\<lambda>v. v\<lparr> women := women v + positive01 (Capacity r) \<rparr>) c2
                else c2)
      in c3)"

fun conflicts_loop :: "ExpandedRow list \<Rightarrow> (conflict_key \<times> tally) list
    \<Rightarrow> (conflict_key \<times> tally) list" where
  "conflicts_loop [] conflicts = conflicts"
| "conflicts_loop (r # rs) conflicts = conflicts_loop rs (conflict_step r conflicts)"

text \<open>\<open>bad = Object.entries(conflicts).filter(([,v]) => v.men>0 && v.women>0)\<close>.\<close>

definition bad :: "ExpandedRow list \<Rightarrow> (conflict_key \<times> tally) list" where
  "bad expanded = filter (\<lambda>(k, v). 0 < men v \<and> 0 < women v) (conflicts_loop expanded [])"

section \<open>CSV builder\<close>

text \<open>
  The rows given to \<open>buildCSV\<close> are objects with text and number fields. A row is the
  list of its own properties in the order of \<open>Object.keys\<close>. The cells that
  \<open>sheet_to_json\<close> returns are values of the same kind. \<open>Inherited h\<close> is the member
  named \<open>h\<close> that every object inherits from \<open>Object.prototype\<close>.
\<close>

datatype jsval = Str string | Number jsnum | Null | Undefined | Inherited string

type_synonym row = "(string \<times> jsval) list"

definition keys :: "row \<Rightarrow> string list" where
  "keys r = map fst r"

text \<open>The names of the members of \<open>Object.prototype\<close>.\<close>

definition inherited_names :: "string list" where
  "inherited_names =
     [''constructor'', ''toString'', ''toLocaleString'', ''valueOf'', ''hasOwnProperty'',
      ''isPrototypeOf'', ''propertyIsEnumerable'', ''__proto__'', ''__defineGetter__'',
      ''__defineSetter__'', ''__lookupGetter__'', ''__lookupSetter__'']"

text \<open>
  The property read \<open>r[h]\<close>: the row's own property when it has one of that name,
  otherwise the inherited member of that name, otherwise \<open>undefined\<close>.
\<close>

definition getprop :: "row \<Rightarrow> string \<Rightarrow> jsval" where
  "getprop r h =
     (case map_of r h of
        Some v \<Rightarrow> v
      | None \<Rightarrow> if h \<in> set inherited_names then Inherited h else Undefined)"

abbreviation DQUOTE :: char where "DQUOTE \<equiv> CHR 0x22"
abbreviation COMMA :: char where "COMMA \<equiv> CHR 0x2C"
abbreviation LF :: char where "LF \<equiv> CHR 0x0A"
abbreviation CR :: char where "CR \<equiv> CHR 0x0D"

text \<open>The decimal text of an integer, as \<open>String(n)\<close> gives it.\<close>

function string_of_nat :: "nat \<Rightarrow> string" where
  "string_of_nat n =
     (if n < 10 then [''0123456789'' ! n]
      else string_of_nat (n div 10) @ [''0123456789'' ! (n mod 10)])"
  by pat_completeness auto
termination
  by (relation "measure id") auto

declare string_of_nat.simps [simp del]

fun String_num :: "jsnum \<Rightarrow> string" where
  "String_num NaN = ''NaN''"
| "String_num (Num i) =
     (if i < 0 then CHR ''-'' # string_of_nat (nat (- i)) else string_of_nat (nat i))"

text \<open>
  \<open>String(v)\<close>. An inherited member is a built-in function, printed in the form
  \<open>function toString() { [native code] }\<close> (\<open>constructor\<close> is the function
  \<open>Object\<close>), except \<open>__proto__\<close>, which is the prototype object.
\<close>

fun js_String :: "jsval \<Rightarrow> string" where
  "js_String (Str s) = s"
| "js_String (Number x) = String_num x"
| "js_String Null = ''null''"
| "js_String Undefined = ''undefined''"
| "js_String (Inherited h) =
     (if h = ''__proto__'' then ''[object Object]''
      else ''function '' @ (if h = ''constructor'' then ''Object'' else h)
        @ ''() { [native code] }'')"

text \<open>\<open>v ?? d\<close>.\<close>

fun nullish_or :: "jsval \<Rightarrow> jsval \<Rightarrow> jsval" where
  "nullish_or Null d = d"
| "nullish_or Undefined d = d"
| "nullish_or v d = v"

text \<open>\<open>/[",\n\r]/.test(s)\<close>: some character of \<open>s\<close> is in the class.\<close>

fun test_special :: "string \<Rightarrow> bool" where
  "test_special [] = False"
| "test_special (c # cs) =
     (if c = DQUOTE \<or> c = COMMA \<or> c = LF \<or> c = CR then True else test_special cs)"

text \<open>\<open>s.replaceAll(c, rep)\<close> for a pattern of one character.\<close>

fun replaceAll :: "char \<Rightarrow> string \<Rightarrow> string \<Rightarrow> string" where
  "replaceAll c rep [] = []"
| "replaceAll c rep (x # xs) =
     (if x = c then rep @ replaceAll c rep xs else x # replaceAll c rep xs)"

definition esc :: "jsval \<Rightarrow> string" where
  "esc val =
     (let s = js_String (nullish_or val (Str ''''))
      in if test_special s then [DQUOTE] @ replaceAll DQUOTE [DQUOTE, DQUOTE] s @ [DQUOTE] else s)"

text \<open>\<open>xs.join(sep)\<close>.\<close>

fun join :: "string \<Rightarrow> string list \<Rightarrow> string" where
  "join sep [] = []"
| "join sep [x] = x"
| "join sep (x # y # ys) = x @ sep @ join sep (y # ys)"

text \<open>The loop \<open>for (const r of rows) lines.push(headers.map(h => esc(r[h])).join(","))\<close>.\<close>

fun push_lines :: "string list \<Rightarrow> row list \<Rightarrow> string list \<Rightarrow> string list" where
  "push_lines headers [] lines = lines"
| "push_lines headers (r # rs) lines =
     push_lines headers rs (lines @ [join [COMMA] (map (\<lambda>h. esc (getprop r h)) headers)])"

definition buildCSV :: "row list \<Rightarrow> string" where
  "buildCSV rows =
     (case rows of
        [] \<Rightarrow> ''''
      | r0 # _ \<Rightarrow>
          (let headers = keys r0;
               lines = [join [COMMA] headers]
           in join [LF] (push_lines headers rows lines)))"

section \<open>Widgets: totals\<close>

record totals =
  total :: jsnum
  men :: jsnum
  women :: jsnum
  booked :: jsnum

text \<open>
  \<open>for (const r of imported) { total += r.Capacity; if (r.Gender === "Men") men +=
  r.Capacity; else women += r.Capacity; }\<close>, on the three running sums.
\<close>

fun capacity_loop :: "ExpandedRow list \<Rightarrow> jsnum \<times> jsnum \<times> jsnum \<Rightarrow> jsnum \<times> jsnum \<times> jsnum" where
  "capacity_loop [] acc = acc"
| "capacity_loop (r # rs) (t, m, w) =
     capacity_loop rs
       (if Gender r = ''Men''
        then (num_add t (Capacity r), num_add m (Capacity r), w)
        else (num_add t (Capacity r), m, num_add w (Capacity r)))"

text \<open>\<open>bookings.reduce((s,b) => s + (b.Status!=="Cancelled" ? b.Seats_Booked : 0), 0)\<close>.\<close>

definition booked_sum :: "BookingRow list \<Rightarrow> jsnum" where
  "booked_sum bookings =
     foldl (\<lambda>s b. num_add s (if Status b \<noteq> Cancelled then Seats_Booked b else Num 0))
       (Num 0) bookings"

definition compute_totals :: "ExpandedRow list \<Rightarrow> BookingRow list \<Rightarrow> totals" where
  "compute_totals imported bookings =
     (case capacity_loop imported (Num 0, Num 0, Num 0) of
        (t, m, w) \<Rightarrow> \<lparr> total = t, men = m, women = w, booked = booked_sum bookings \<rparr>)"

section \<open>Validate and preview: the handler\<close>

text \<open>
  Reading the file and parsing the workbook are done by the browser and the
  spreadsheet library. The model takes what they give: either something is thrown,
  with a message, or \<open>sheet_to_json\<close> returns the data rows of the first sheet, one
  object per row below the header row (none when the sheet has a header row only).
\<close>

datatype file_result = Throws string | Rows "row list"

text \<open>
  The state the handler reads and writes. The two date inputs hold either the empty
  text (\<open>None\<close>) or a date, kept as its day number; \<open>excelFile\<close> is \<open>null\<close>
  (\<open>None\<close>) or a file, kept as what reading and parsing it gives.
\<close>

record page_state =
  fromDate :: "int option"
  toDate :: "int option"
  excelFile :: "file_result option"
  loading :: bool
  imported :: "ExpandedRow list"

text \<open>
  The message boxes: \<open>SelectInputs\<close> is "Select From/To dates and upload an Excel
  file.", \<open>PreviewReady n c\<close> is "Preview ready. Rows: n. Conflicts found: c.", and
  \<open>ErrorAlert m\<close> is "Error: " followed by the message \<open>m\<close> of what was thrown.
\<close>

datatype alert = SelectInputs | PreviewReady nat nat | ErrorAlert string

definition required :: "string list" where
  "required = [''Slot_ID'', ''Start_Time'', ''End_Time'', ''Day'', ''Gender'', ''Capacity'']"

text \<open>\<open>required.every(h => Object.keys(rows[0]||{}).includes(h))\<close>.\<close>

definition headerOk :: "row list \<Rightarrow> bool" where
  "headerOk rows =
     list_all (\<lambda>h. h \<in> set (keys (case rows of [] \<Rightarrow> [] | r0 # _ \<Rightarrow> r0))) required"

text \<open>
  \<open>Number(v)\<close>. The number a text denotes is computed by the language
  (\<open>StringToNumber\<close>); it is the parameter \<open>s2n\<close>.
\<close>

fun toNumber :: "(string \<Rightarrow> jsnum) \<Rightarrow> jsval \<Rightarrow> jsnum" where
  "toNumber s2n (Number x) = x"
| "toNumber s2n (Str s) = s2n s"
| "toNumber s2n Null = Num 0"
| "toNumber s2n Undefined = NaN"
| "toNumber s2n (Inherited h) = NaN"

text \<open>Whether \<open>v\<close> counts as true in \<open>v || 0\<close>.\<close>

fun truthy :: "jsval \<Rightarrow> bool" where
  "truthy (Str s) = (s \<noteq> [])"
| "truthy (Number (Num i)) = (i \<noteq> 0)"
| "truthy (Number NaN) = False"
| "truthy Null = False"
| "truthy Undefined = False"
| "truthy (Inherited h) = True"

text \<open>The object built for one row by \<open>rows.map(r => ({ ... }))\<close>.\<close>

definition norm_row :: "(string \<Rightarrow> jsnum) \<Rightarrow> row \<Rightarrow> SlotRow" where
  "norm_row s2n r =
     \<lparr> Slot_ID = toNumber s2n (getprop r ''Slot_ID''),
       Start_Time = js_String (getprop r ''Start_Time''),
       End_Time = js_String (getprop r ''End_Time''),
       Day = js_String (getprop r ''Day''),
       Gender = js_String (getprop r ''Gender''),
       Capacity = toNumber s2n
         (if truthy (getprop r ''Capacity'') then getprop r ''Capacity'' else Number (Num 0)) \<rparr>"

text \<open>
  The body of the \<open>try\<close> block up to the conflict count: \<open>Inl m\<close> when something is
  thrown with message \<open>m\<close>, otherwise the expanded rows and the number of conflicts.
\<close>

definition preview :: "(string \<Rightarrow> jsnum) \<Rightarrow> zone \<Rightarrow> file_result \<Rightarrow> int \<Rightarrow> int
    \<Rightarrow> string + (ExpandedRow list \<times> nat)" where
  "preview s2n z file fromDay toDay =
     (case file of
        Throws m \<Rightarrow> Inl m
      | Rows rows \<Rightarrow>
          if \<not> headerOk rows
          then Inl (''Invalid headers. Expected: '' @ join '', '' required)
          else (let norm = map (norm_row s2n) rows;
                    expanded = expand z norm fromDay toDay
                in Inr (expanded, length (bad expanded))))"

text \<open>
  \<open>handleValidatePreview\<close>: the new state and the message shown. \<open>setImported\<close> is
  called only after everything that can throw; \<open>finally\<close> clears \<open>loading\<close>.
\<close>

definition handleValidatePreview :: "(string \<Rightarrow> jsnum) \<Rightarrow> zone \<Rightarrow> page_state
    \<Rightarrow> page_state \<times> alert" where
  "handleValidatePreview s2n z st =
     (case (excelFile st, fromDate st, toDate st) of
        (Some file, Some fromDay, Some toDay) \<Rightarrow>
          (case preview s2n z file fromDay toDay of
             Inl m \<Rightarrow> (st\<lparr> loading := False \<rparr>, ErrorAlert m)
           | Inr (expanded, n) \<Rightarrow>
               (st\<lparr> loading := False, imported := expanded \<rparr>, PreviewReady (length expanded) n))
      | _ \<Rightarrow> (st, SelectInputs))"

section \<open>Specification-side and auxiliary definitions\<close>

text \<open>
  The specification's \<open>weekdayOf(date)\<close>, for the refinement statements below: the
  weekday name of calendar day \<open>n\<close>, Sunday first (day 0, 1970-01-01, is a Thursday).
\<close>

definition weekdayOf :: "int \<Rightarrow> string" where
  "weekdayOf n =
     [''Sunday'', ''Monday'', ''Tuesday'', ''Wednesday'', ''Thursday'', ''Friday'', ''Saturday'']
       ! nat ((n + 4) mod 7)"

text \<open>The specification's matching rule: the template's day is \<open>All\<close> or the weekday of day \<open>n\<close>.\<close>

definition matches :: "int \<Rightarrow> SlotRow \<Rightarrow> bool" where
  "matches n r \<longleftrightarrow> Day r = ''All'' \<or> Day r = weekdayOf n"

text \<open>
  The specification's field-to-text rule: \<open>null\<close> or absent gives the empty text,
  everything else its decimal or text representation.
\<close>

fun field_text :: "jsval \<Rightarrow> string" where
  "field_text Null = ''''"
| "field_text Undefined = ''''"
| "field_text v = js_String v"

text \<open>
  The specification's quoting rule: a text needs quoting when it contains a comma, a
  double quote, a line feed or a carriage return; quoting wraps it in double quotes
  with every double quote inside doubled.
\<close>

definition needs_quoting :: "string \<Rightarrow> bool" where
  "needs_quoting s \<longleftrightarrow> COMMA \<in> set s \<or> DQUOTE \<in> set s \<or> LF \<in> set s \<or> CR \<in> set s"

definition quoted :: "string \<Rightarrow> string" where
  "quoted s =
     [DQUOTE] @ concat (map (\<lambda>c. if c = DQUOTE then [DQUOTE, DQUOTE] else [c]) s) @ [DQUOTE]"

definition csv_field :: "jsval \<Rightarrow> string" where
  "csv_field v = (if needs_quoting (field_text v) then quoted (field_text v) else field_text v)"

text \<open>The sum of a list of numbers.\<close>

fun num_sum :: "jsnum list \<Rightarrow> jsnum" where
  "num_sum [] = Num 0"
| "num_sum (x # xs) = num_add x (num_sum xs)"

text \<open>
  The specification's \<open>menPositive\<close> and \<open>womenPositive\<close> flags of a group: at least
  one row of the group (same date and slot id) has the gender and a capacity above 0.
\<close>

definition positive_in_group :: "string \<Rightarrow> conflict_key \<Rightarrow> ExpandedRow list \<Rightarrow> bool" where
  "positive_in_group g key rows =
     list_ex (\<lambda>r. (Date r, Slot_ID r) = key \<and> Gender r = g \<and> num_pos (Capacity r)) rows"

text \<open>The counters stored in the dictionary for a key, 0 when the key is not stored.\<close>

definition stored_men :: "(conflict_key \<times> tally) list \<Rightarrow> conflict_key \<Rightarrow> nat" where
  "stored_men cs k = (case map_of cs k of None \<Rightarrow> 0 | Some u \<Rightarrow> tally.men u)"

definition stored_women :: "(conflict_key \<times> tally) list \<Rightarrow> conflict_key \<Rightarrow> nat" where
  "stored_women cs k = (case map_of cs k of None \<Rightarrow> 0 | Some u \<Rightarrow> tally.women u)"

section \<open>Properties of the expansion\<close>

subsection \<open>Zones with a constant offset\<close>

lemma LocalTime_fixed: "LocalTime (fixed_zone tz) t = t + tz * msPerMinute"
  by (simp add: LocalTime.rep_eq fixed_zone.rep_eq)

lemma UTC_fixed: "UTC (fixed_zone tz) lt = lt - tz * msPerMinute"
  by (simp add: UTC.rep_eq fixed_zone.rep_eq)

lemma nextDay_fixed: "nextDay (fixed_zone tz) d = d + msPerDay"
  by (simp add: nextDay_def LocalTime_fixed UTC_fixed)

lemma localMidnight_fixed: "localMidnight (fixed_zone tz) n = n * msPerDay - tz * msPerMinute"
  by (simp add: localMidnight_def UTC_fixed)

lemma localMidnight_le_iff:
  "localMidnight (fixed_zone tz) a \<le> localMidnight (fixed_zone tz) b \<longleftrightarrow> a \<le> b"
  by (simp add: localMidnight_fixed msPerDay_def)

lemma localMidnight_next:
  "localMidnight (fixed_zone tz) a + msPerDay = localMidnight (fixed_zone tz) (a + 1)"
  by (simp add: localMidnight_fixed algebra_simps)

text \<open>The generator yields the local midnights of the days from \<open>a\<close> to \<open>b\<close>, ascending.\<close>

lemma dateRange_from_upto:
  "dateRange_from (fixed_zone tz) (localMidnight (fixed_zone tz) a) (localMidnight (fixed_zone tz) b)
     = map (localMidnight (fixed_zone tz)) [a..b]"
proof (induction a b rule: upto.induct)
  case (1 i j)
  show ?case
  proof (cases "i \<le> j")
    case True
    with 1 show ?thesis
      by (simp add: dateRange_from.simps [of _ "localMidnight (fixed_zone tz) i"]
          localMidnight_le_iff nextDay_fixed localMidnight_next upto_rec1 [of i j])
  next
    case False
    then show ?thesis
      by (simp add: dateRange_from.simps [of _ "localMidnight (fixed_zone tz) i"]
          localMidnight_le_iff)
  qed
qed

lemma push_matching_eq:
  "push_matching wd dt rs expanded =
     expanded @ map (\<lambda>r. with_Date r dt) (filter (\<lambda>r. Day r = ''All'' \<or> Day r = wd) rs)"
  by (induction rs arbitrary: expanded) auto

lemma expand_loop_eq:
  "expand_loop z ds norm expanded =
     expanded @ concat (map (\<lambda>d. map (\<lambda>r. with_Date r (fmtDate d))
        (filter (\<lambda>r. Day r = ''All'' \<or> Day r = weekdayName z d) norm)) ds)"
  by (induction ds arbitrary: expanded) (auto simp: push_matching_eq)

lemma getDay_localMidnight:
  "getDay (fixed_zone tz) (localMidnight (fixed_zone tz) n) = nat ((n + 4) mod 7)"
  by (simp add: getDay_def localMidnight_fixed LocalTime_fixed msPerDay_def)

lemma fmtDate_localMidnight:
  "fmtDate (localMidnight (fixed_zone tz) n) = n + (- (tz * msPerMinute)) div msPerDay"
proof -
  have "(n * msPerDay - tz * msPerMinute) div msPerDay
      = (- (tz * msPerMinute) + n * msPerDay) div msPerDay"
    by (simp add: algebra_simps)
  also have "\<dots> = n + (- (tz * msPerMinute)) div msPerDay"
    by (rule div_mult_self1) (simp add: msPerDay_def)
  finally show ?thesis
    by (simp add: fmtDate_def localMidnight_fixed)
qed

lemma weekdayName_localMidnight:
  "weekdayName (fixed_zone tz) (localMidnight (fixed_zone tz) n) = weekdayOf n"
  by (simp add: weekdayName_def weekdayOf_def getDay_localMidnight)

text \<open>When one of the two dates is not a valid \<open>Date\<close>, nothing is produced.\<close>

lemma expand_invalid:
  "\<not> valid_day fromDay \<or> \<not> valid_day toDay \<Longrightarrow> expand z templates fromDay toDay = []"
  by (auto simp: expand_def dateRange_def parseLocal_def)

text \<open>
  The expansion in closed form, in a zone with a constant offset and for dates that
  are valid: for each day of the range in ascending order, the matching templates in
  their original order, each stamped with the UTC calendar day of that day's local
  midnight.
\<close>

lemma expand_eq:
  assumes "valid_day fromDay" and "valid_day toDay"
  shows "expand (fixed_zone tz) templates fromDay toDay =
     concat (map (\<lambda>n. map (\<lambda>r. with_Date r (fmtDate (localMidnight (fixed_zone tz) n)))
                         (filter (matches n) templates)) [fromDay..toDay])"
proof -
  have "matches n = (\<lambda>r. Day r = ''All'' \<or> Day r = weekdayOf n)" for n
    by (simp add: fun_eq_iff matches_def)
  with assms show ?thesis
    by (simp add: expand_def dateRange_def parseLocal_def dateRange_from_upto expand_loop_eq
        comp_def weekdayName_localMidnight)
qed

lemma fmtDate_localMidnight_strict_mono:
  "m < n \<Longrightarrow> fmtDate (localMidnight (fixed_zone tz) m) < fmtDate (localMidnight (fixed_zone tz) n)"
  by (simp add: fmtDate_localMidnight)

lemma sorted_blocks:
  fixes f :: "int \<Rightarrow> int"
  assumes mono: "\<And>m n. m < n \<Longrightarrow> f m < f n"
  shows "sorted_wrt (<) ns \<Longrightarrow> sorted (concat (map (\<lambda>n. map (\<lambda>r. f n) (g n)) ns))"
proof (induction ns)
  case Nil
  then show ?case by simp
next
  case (Cons n ns)
  have const: "sorted (map (\<lambda>r. f n) (g n))"
    by (induction "g n") (simp_all add: sorted_wrt_map)
  have later: "f n \<le> y" if "y \<in> set (concat (map (\<lambda>n. map (\<lambda>r. f n) (g n)) ns))" for y
  proof -
    from that obtain m where "m \<in> set ns" and "y = f m"
      by auto
    with Cons.prems have "n < m"
      by auto
    with \<open>y = f m\<close> show ?thesis
      using mono [of n m] by simp
  qed
  from Cons const later show ?case
    by (auto simp: sorted_append)
qed

text \<open>
  In a zone with a constant offset the stamped dates ascend along the output, strictly
  from one day of the range to the next.
\<close>

lemma expand_Date_sorted:
  assumes "valid_day fromDay" and "valid_day toDay"
  shows "sorted (map Date (expand (fixed_zone tz) templates fromDay toDay))"
proof -
  have "map Date (expand (fixed_zone tz) templates fromDay toDay) =
      concat (map (\<lambda>n. map (\<lambda>r. fmtDate (localMidnight (fixed_zone tz) n))
        (filter (matches n) templates)) [fromDay..toDay])"
    by (simp add: expand_eq [OF assms] map_concat comp_def with_Date_def)
  also have "sorted \<dots>"
    by (rule sorted_blocks [OF fmtDate_localMidnight_strict_mono]) simp_all
  finally show ?thesis .
qed

subsection \<open>From after To\<close>

lemma expand_later_instant_empty:
  assumes "\<forall>d to. parseLocal z fromDay = Some d \<longrightarrow> parseLocal z toDay = Some to \<longrightarrow> to < d"
  shows "expand z templates fromDay toDay = []"
proof (cases "parseLocal z fromDay")
  case None
  then show ?thesis
    by (simp add: expand_def dateRange_def)
next
  case (Some d)
  show ?thesis
  proof (cases "parseLocal z toDay")
    case None
    with Some show ?thesis
      by (simp add: expand_def dateRange_def)
  next
    case to: (Some to)
    with Some assms have "to < d"
      by simp
    with Some to show ?thesis
      by (simp add: expand_def dateRange_def dateRange_from.simps [of z d])
  qed
qed

lemma expand_fixed_from_after_to:
  assumes "toDay < fromDay"
  shows "expand (fixed_zone tz) templates fromDay toDay = []"
proof (rule expand_later_instant_empty, intro allI impI)
  fix d to
  assume "parseLocal (fixed_zone tz) fromDay = Some d"
    and "parseLocal (fixed_zone tz) toDay = Some to"
  then have "d = localMidnight (fixed_zone tz) fromDay" and "to = localMidnight (fixed_zone tz) toDay"
    by (auto simp: parseLocal_def split: if_splits)
  with assms show "to < d"
    using localMidnight_le_iff [of tz fromDay toDay] by simp
qed

text \<open>
  C6, as amended. When the local midnight of the From date is a later instant than
  the local midnight of the To date (or one of the two is not a valid date), the
  expansion is the empty list and nothing fails. In a zone with a constant offset
  this is so whenever the From date is after the To date.
\<close>

theorem expand_from_after_to_empty:
  "((\<forall>d to. parseLocal z fromDay = Some d \<longrightarrow> parseLocal z toDay = Some to \<longrightarrow> to < d)
      \<longrightarrow> expand z templates fromDay toDay = [])
   \<and> (toDay < fromDay \<longrightarrow> expand (fixed_zone tz) templates fromDay toDay = [])"
  using expand_later_instant_empty [of z fromDay toDay templates]
    expand_fixed_from_after_to [of toDay fromDay tz templates]
  by blast

theorem expand_from_after_to_empty_witness:
  "parseLocal London_2024 19814 = Some 1711926000000
   \<and> parseLocal London_2024 19813 = Some 1711843200000
   \<and> (1711843200000::int) < 1711926000000
   \<and> expand London_2024
       [\<lparr> Slot_ID = Num 1, Start_Time = ''08:00'', End_Time = ''09:00'',
          Day = ''All'', Gender = ''Men'', Capacity = Num 10 \<rparr>] 19814 19813 = []
   \<and> (19813::int) < 19814
   \<and> expand (fixed_zone 180)
       [\<lparr> Slot_ID = Num 1, Start_Time = ''08:00'', End_Time = ''09:00'',
          Day = ''All'', Gender = ''Men'', Capacity = Num 10 \<rparr>] 19814 19813 = []"
proof -
  have p1: "parseLocal London_2024 19814 = Some 1711926000000"
    by (simp add: parseLocal_def valid_day_def localMidnight_def UTC.rep_eq London_2024.rep_eq
        msPerDay_def)
  have p2: "parseLocal London_2024 19813 = Some 1711843200000"
    by (simp add: parseLocal_def valid_day_def localMidnight_def UTC.rep_eq London_2024.rep_eq
        msPerDay_def)
  have order: "\<forall>d to. parseLocal London_2024 19814 = Some d
      \<longrightarrow> parseLocal London_2024 19813 = Some to \<longrightarrow> to < d"
    by (simp add: p1 p2)
  have less: "(19813::int) < 19814"
    by simp
  from expand_from_after_to_empty [of London_2024 19814 19813 _ 180] order less p1 p2
  show ?thesis
    by simp
qed

text \<open>
  C6 as stated, in Pacific/Apia at the end of 2011, with From 2011-12-31 (day 15339)
  and To 2011-12-30 (day 15338), the day that the zone skipped: both dates are read as
  the same instant, the loop runs once, and one row is produced.
\<close>

theorem expand_apia_from_after_to_counterexample:
  "(15338::int) < 15339
   \<and> expand Apia_2011
       [\<lparr> Slot_ID = Num 1, Start_Time = ''08:00'', End_Time = ''09:00'',
          Day = ''All'', Gender = ''Men'', Capacity = Num 10 \<rparr>] 15339 15338
     = [\<lparr> Slot_ID = Num 1, Start_Time = ''08:00'', End_Time = ''09:00'',
          Day = ''All'', Gender = ''Men'', Capacity = Num 10, Date = 15338 \<rparr>]"
proof -
  have p1: "parseLocal Apia_2011 15339 = Some 1325239200000"
    by (simp add: parseLocal_def valid_day_def localMidnight_def UTC.rep_eq Apia_2011.rep_eq
        msPerDay_def)
  have p2: "parseLocal Apia_2011 15338 = Some 1325239200000"
    by (simp add: parseLocal_def valid_day_def localMidnight_def UTC.rep_eq Apia_2011.rep_eq
        msPerDay_def)
  have n1: "nextDay Apia_2011 1325239200000 = 1325325600000"
    by (simp add: nextDay_def LocalTime.rep_eq UTC.rep_eq Apia_2011.rep_eq msPerDay_def)
  have dr: "dateRange_from Apia_2011 1325239200000 1325239200000 = [1325239200000]"
    by (simp add: dateRange_from.simps [of _ 1325239200000] dateRange_from.simps [of _ 1325325600000]
        n1)
  have wd: "weekdayName Apia_2011 1325239200000 = ''Saturday''"
    by (simp add: weekdayName_def getDay_def LocalTime.rep_eq Apia_2011.rep_eq msPerDay_def)
  have fd: "fmtDate 1325239200000 = 15338"
    by (simp add: fmtDate_def msPerDay_def)
  show ?thesis
    by (simp add: expand_def dateRange_def p1 p2 dr wd fd with_Date_def)
qed

subsection \<open>The order of the output\<close>

text \<open>
  C3, in Europe/London, for the range from 2024-03-31 (day 19813, a Sunday) to
  2024-04-01 and two templates for every day. Local midnight of 2024-04-01 is
  2024-03-31T23:00Z, so the rows of both days are stamped 2024-03-31: the rows of that
  date are the template list twice over, and no row carries 2024-04-01.
\<close>

theorem expand_london_two_days_one_date:
  "expand London_2024
     [\<lparr> Slot_ID = Num 1, Start_Time = ''08:00'', End_Time = ''09:00'', Day = ''All'',
        Gender = ''Men'', Capacity = Num 10 \<rparr>,
      \<lparr> Slot_ID = Num 2, Start_Time = ''09:00'', End_Time = ''10:00'', Day = ''All'',
        Gender = ''Women'', Capacity = Num 5 \<rparr>] 19813 19814
   = [\<lparr> Slot_ID = Num 1, Start_Time = ''08:00'', End_Time = ''09:00'', Day = ''All'',
        Gender = ''Men'', Capacity = Num 10, Date = 19813 \<rparr>,
      \<lparr> Slot_ID = Num 2, Start_Time = ''09:00'', End_Time = ''10:00'', Day = ''All'',
        Gender = ''Women'', Capacity = Num 5, Date = 19813 \<rparr>,
      \<lparr> Slot_ID = Num 1, Start_Time = ''08:00'', End_Time = ''09:00'', Day = ''All'',
        Gender = ''Men'', Capacity = Num 10, Date = 19813 \<rparr>,
      \<lparr> Slot_ID = Num 2, Start_Time = ''09:00'', End_Time = ''10:00'', Day = ''All'',
        Gender = ''Women'', Capacity = Num 5, Date = 19813 \<rparr>]"
proof -
  have p1: "parseLocal London_2024 19813 = Some 1711843200000"
    by (simp add: parseLocal_def valid_day_def localMidnight_def UTC.rep_eq London_2024.rep_eq
        msPerDay_def)
  have p2: "parseLocal London_2024 19814 = Some 1711926000000"
    by (simp add: parseLocal_def valid_day_def localMidnight_def UTC.rep_eq London_2024.rep_eq
        msPerDay_def)
  have n1: "nextDay London_2024 1711843200000 = 1711926000000"
    by (simp add: nextDay_def LocalTime.rep_eq UTC.rep_eq London_2024.rep_eq msPerDay_def)
  have n2: "nextDay London_2024 1711926000000 = 1712012400000"
    by (simp add: nextDay_def LocalTime.rep_eq UTC.rep_eq London_2024.rep_eq msPerDay_def)
  have dr: "dateRange_from London_2024 1711843200000 1711926000000
      = [1711843200000, 1711926000000]"
    by (simp add: dateRange_from.simps [of _ 1711843200000]
        dateRange_from.simps [of _ 1711926000000] dateRange_from.simps [of _ 1712012400000] n1 n2)
  have f1: "fmtDate 1711843200000 = 19813" and f2: "fmtDate 1711926000000 = 19813"
    by (simp_all add: fmtDate_def msPerDay_def)
  show ?thesis
    by (simp add: expand_def dateRange_def p1 p2 dr f1 f2 with_Date_def)
qed

subsection \<open>A skipped midnight\<close>

text \<open>
  In Africa/Cairo, for the range from 2024-04-26 (day 19839) to 2024-04-27: local
  midnight of 2024-04-26 is skipped, so the first date is read as 01:00 local time, the
  step to the next local day keeps 01:00, which is after the midnight of the To date,
  and the loop runs once. The template for every day gives one row where two days are
  in the range, stamped 2024-04-25.
\<close>

lemma expand_cairo_last_day_dropped:
  "expand Cairo_2024
     [\<lparr> Slot_ID = Num 1, Start_Time = ''08:00'', End_Time = ''09:00'', Day = ''All'',
        Gender = ''Men'', Capacity = Num 10 \<rparr>] 19839 19840
   = [\<lparr> Slot_ID = Num 1, Start_Time = ''08:00'', End_Time = ''09:00'', Day = ''All'',
        Gender = ''Men'', Capacity = Num 10, Date = 19838 \<rparr>]"
proof -
  have p1: "parseLocal Cairo_2024 19839 = Some 1714082400000"
    by (simp add: parseLocal_def valid_day_def localMidnight_def UTC.rep_eq Cairo_2024.rep_eq
        msPerDay_def)
  have p2: "parseLocal Cairo_2024 19840 = Some 1714165200000"
    by (simp add: parseLocal_def valid_day_def localMidnight_def UTC.rep_eq Cairo_2024.rep_eq
        msPerDay_def)
  have n1: "nextDay Cairo_2024 1714082400000 = 1714168800000"
    by (simp add: nextDay_def LocalTime.rep_eq UTC.rep_eq Cairo_2024.rep_eq msPerDay_def)
  have dr: "dateRange_from Cairo_2024 1714082400000 1714165200000 = [1714082400000]"
    by (simp add: dateRange_from.simps [of _ 1714082400000]
        dateRange_from.simps [of _ 1714168800000] n1)
  have fd: "fmtDate 1714082400000 = 19838"
    by (simp add: fmtDate_def msPerDay_def)
  show ?thesis
    by (simp add: expand_def dateRange_def p1 p2 dr fd with_Date_def)
qed

section \<open>Properties of the CSV builder\<close>

lemma test_special_iff: "test_special s \<longleftrightarrow> needs_quoting s"
  by (induction s) (auto simp: needs_quoting_def)

lemma replaceAll_concat: "replaceAll c rep s = concat (map (\<lambda>x. if x = c then rep else [x]) s)"
  by (induction s) simp_all

lemma nullish_text: "js_String (nullish_or v (Str '''')) = field_text v"
  by (cases v) simp_all

lemma esc_csv_field: "esc v = csv_field v"
  by (simp add: esc_def csv_field_def quoted_def nullish_text test_special_iff replaceAll_concat)

lemma push_lines_eq:
  "push_lines headers rs lines =
     lines @ map (\<lambda>r. join [COMMA] (map (\<lambda>h. esc (getprop r h)) headers)) rs"
  by (induction rs arbitrary: lines) simp_all

lemma buildCSV_Cons:
  "buildCSV (r # rs) =
     join [LF] (join [COMMA] (keys r)
       # map (\<lambda>row. join [COMMA] (map (\<lambda>h. esc (getprop row h)) (keys r))) (r # rs))"
  by (simp add: buildCSV_def push_lines_eq Let_def)

lemma unquoted_not_wrapped:
  assumes "\<not> needs_quoting s"
  shows "s \<noteq> [DQUOTE] @ body @ [DQUOTE]"
proof
  assume "s = [DQUOTE] @ body @ [DQUOTE]"
  then have "DQUOTE \<in> set s"
    by simp
  with assms show False
    by (simp add: needs_quoting_def)
qed

lemma csv_field_wrapped_iff:
  "(\<exists>body. csv_field v = [DQUOTE] @ body @ [DQUOTE]) \<longleftrightarrow> needs_quoting (field_text v)"
proof (cases "needs_quoting (field_text v)")
  case True
  then show ?thesis
    by (auto simp: csv_field_def quoted_def)
next
  case False
  then show ?thesis
    using unquoted_not_wrapped [of "field_text v"] by (simp add: csv_field_def)
qed

lemma map_of_filter_keys:
  "h \<in> S \<Longrightarrow> map_of (filter (\<lambda>(k, v). k \<in> S) row) h = map_of row h"
  by (induction row) auto

lemma getprop_filter_keys:
  "h \<in> S \<Longrightarrow> getprop (filter (\<lambda>(k, v). k \<in> S) row) h = getprop row h"
  by (simp add: getprop_def map_of_filter_keys)

lemma line_filter_keys:
  "map (\<lambda>h. esc (getprop (filter (\<lambda>(k, v). k \<in> set hs) row) h)) hs
     = map (\<lambda>h. esc (getprop row h)) hs"
  by (simp add: getprop_filter_keys)

text \<open>
  C2. A field of the output is the field's text wrapped in double quotes, with every
  double quote inside doubled, exactly when the text contains a comma, a double quote,
  a line feed or a carriage return, and is the text itself otherwise. This holds for
  \<open>esc\<close> and so for every cell of every data line of \<open>buildCSV\<close>; the examples are
  those of the specification.
\<close>

theorem buildCSV_quoting_rule:
  "esc v = (if needs_quoting (field_text v) then quoted (field_text v) else field_text v)
   \<and> ((\<exists>body. esc v = [DQUOTE] @ body @ [DQUOTE]) \<longleftrightarrow> needs_quoting (field_text v))
   \<and> buildCSV (r # rs) =
       join [LF] (join [COMMA] (keys r)
         # map (\<lambda>row. join [COMMA] (map (\<lambda>h. csv_field (getprop row h)) (keys r))) (r # rs))
   \<and> esc (Str ''needs,comma'') = [DQUOTE] @ ''needs,comma'' @ [DQUOTE]
   \<and> esc (Str (''He said '' @ [DQUOTE] @ ''hi'' @ [DQUOTE]))
       = [DQUOTE] @ ''He said '' @ [DQUOTE, DQUOTE] @ ''hi'' @ [DQUOTE, DQUOTE] @ [DQUOTE]
   \<and> esc (Str (''line1'' @ [LF] @ ''line2'')) = [DQUOTE] @ ''line1'' @ [LF] @ ''line2'' @ [DQUOTE]
   \<and> esc (Str (''combo, '' @ [DQUOTE] @ ''quote'' @ [DQUOTE]))
       = [DQUOTE] @ ''combo, '' @ [DQUOTE, DQUOTE] @ ''quote'' @ [DQUOTE, DQUOTE] @ [DQUOTE]
   \<and> esc (Str ''hello'') = ''hello''"
proof (intro conjI)
  show "esc v = (if needs_quoting (field_text v) then quoted (field_text v) else field_text v)"
    by (simp add: esc_csv_field csv_field_def)
  show "(\<exists>body. esc v = [DQUOTE] @ body @ [DQUOTE]) \<longleftrightarrow> needs_quoting (field_text v)"
    by (simp only: esc_csv_field csv_field_wrapped_iff)
  show "buildCSV (r # rs) =
       join [LF] (join [COMMA] (keys r)
         # map (\<lambda>row. join [COMMA] (map (\<lambda>h. csv_field (getprop row h)) (keys r))) (r # rs))"
    by (simp only: buildCSV_Cons esc_csv_field)
qed (simp_all add: esc_def)

text \<open>
  C7, as amended. On no rows the output is the empty text. Otherwise it is the lines
  joined by one line feed, nothing after the last line: first the keys of the first row
  joined by commas, then for each row the escaped values of those keys joined by
  commas. A key that a row has with value \<open>null\<close>, or does not have and that is not
  the name of a member every object inherits, gives an empty cell; the keys of a later
  row that the first row does not have play no part. The example is
  \<open>toCSV([{A:"hello",B:123}])\<close>.
\<close>

theorem buildCSV_layout:
  "buildCSV [] = ''''
   \<and> buildCSV (r # rs) =
       join [LF] (join [COMMA] (keys r)
         # map (\<lambda>row. join [COMMA] (map (\<lambda>h. esc (getprop row h)) (keys r))) (r # rs))
   \<and> (map_of row h = Some Null \<or> (map_of row h = None \<and> h \<notin> set inherited_names)
        \<longrightarrow> esc (getprop row h) = '''')
   \<and> buildCSV (r # rs) = buildCSV (r # map (filter (\<lambda>(k, v). k \<in> set (keys r))) rs)
   \<and> buildCSV [[(''A'', Str ''hello''), (''B'', Number (Num 123))]]
       = ''A,B'' @ [LF] @ ''hello,123''"
proof (intro conjI)
  show "buildCSV [] = ''''"
    by (simp add: buildCSV_def)
  show "buildCSV (r # rs) =
       join [LF] (join [COMMA] (keys r)
         # map (\<lambda>row. join [COMMA] (map (\<lambda>h. esc (getprop row h)) (keys r))) (r # rs))"
    by (rule buildCSV_Cons)
  show "map_of row h = Some Null \<or> (map_of row h = None \<and> h \<notin> set inherited_names)
        \<longrightarrow> esc (getprop row h) = ''''"
    by (auto simp: getprop_def esc_def)
  show "buildCSV (r # rs) = buildCSV (r # map (filter (\<lambda>(k, v). k \<in> set (keys r))) rs)"
    by (simp add: buildCSV_Cons comp_def line_filter_keys)
  show "buildCSV [[(''A'', Str ''hello''), (''B'', Number (Num 123))]]
       = ''A,B'' @ [LF] @ ''hello,123''"
    by (simp add: buildCSV_def keys_def getprop_def esc_def string_of_nat.simps)
qed

theorem buildCSV_layout_witness:
  "map_of [(''B'', Str ''y'')] ''A'' = None
   \<and> ''A'' \<notin> set inherited_names
   \<and> esc (getprop [(''B'', Str ''y'')] ''A'') = ''''
   \<and> buildCSV [[(''A'', Str ''x'')], [(''B'', Str ''y'')], [(''A'', Null)]]
       = ''A'' @ [LF] @ ''x'' @ [LF] @ [LF]"
proof -
  have absent: "map_of [(''B'', Str ''y'')] ''A'' = None"
    by simp
  have own: "''A'' \<notin> set inherited_names"
    by (simp add: inherited_names_def)
  from buildCSV_layout [of "[(''A'', Str ''x'')]" "[[(''B'', Str ''y'')], [(''A'', Null)]]"
      "[(''B'', Str ''y'')]" "''A''"] absent own
  show ?thesis
    by (simp add: keys_def getprop_def esc_def)
qed

text \<open>
  C7 as stated, at \<open>[{A:1, constructor:"c"}, {A:2}]\<close>: the second row has no field
  \<open>constructor\<close>, and its cell is the text of the inherited function, not empty.
\<close>

theorem buildCSV_absent_inherited_counterexample:
  "map_of [(''A'', Number (Num 2))] ''constructor'' = None
   \<and> esc (getprop [(''A'', Number (Num 2))] ''constructor'')
       = ''function Object() { [native code] }''
   \<and> buildCSV [[(''A'', Number (Num 1)), (''constructor'', Str ''c'')], [(''A'', Number (Num 2))]]
       = ''A,constructor'' @ [LF] @ ''1,c'' @ [LF] @ ''2,function Object() { [native code] }''"
  by (simp add: buildCSV_def keys_def getprop_def esc_def inherited_names_def
      string_of_nat.simps)

section \<open>Properties of the totals\<close>

lemma num_add_assoc: "num_add (num_add a b) c = num_add a (num_add b c)"
  by (cases a; cases b; cases c) simp_all

lemma num_add_zero_right: "num_add a (Num 0) = a"
  by (cases a) simp_all

lemma num_add_zero_left: "num_add (Num 0) a = a"
  by (cases a) simp_all

lemma booked_foldl:
  "foldl (\<lambda>s b. num_add s (if Status b \<noteq> Cancelled then Seats_Booked b else Num 0)) s0 bookings
     = num_add s0 (num_sum (map Seats_Booked (filter (\<lambda>b. Status b \<noteq> Cancelled) bookings)))"
  by (induction bookings arbitrary: s0)
    (simp_all add: num_add_assoc num_add_zero_right num_add_zero_left)

lemma num_sum_ints: "num_sum (map Num xs) = Num (sum_list xs)"
  by (induction xs) simp_all

text \<open>
  C8. The booked total is the sum of the seats booked over exactly the bookings whose
  status is not Cancelled, whatever the capacity rows are; bookings of 3 seats
  (Booked), 2 seats (Cancelled) and 4 seats (Checked-in) give 7.
\<close>

theorem booked_total_sums_not_cancelled:
  "booked (compute_totals rows bookings)
     = num_sum (map Seats_Booked (filter (\<lambda>b. Status b \<noteq> Cancelled) bookings))
   \<and> booked (compute_totals rows
        [b\<lparr> Seats_Booked := Num 3, Status := Booked \<rparr>,
         b\<lparr> Seats_Booked := Num 2, Status := Cancelled \<rparr>,
         b\<lparr> Seats_Booked := Num 4, Status := Checked_in \<rparr>]) = Num 7"
proof -
  have eq: "booked (compute_totals rows bs)
      = num_sum (map Seats_Booked (filter (\<lambda>b. Status b \<noteq> Cancelled) bs))" for bs
    by (simp add: compute_totals_def booked_sum_def booked_foldl num_add_zero_left
        split: prod.splits)
  show ?thesis
    by (simp add: eq)
qed

lemma capacity_loop_eq:
  "capacity_loop rows (t, m, w) =
     (num_add t (num_sum (map Capacity rows)),
      num_add m (num_sum (map Capacity (filter (\<lambda>r. Gender r = ''Men'') rows))),
      num_add w (num_sum (map Capacity (filter (\<lambda>r. Gender r \<noteq> ''Men'') rows))))"
  by (induction rows arbitrary: t m w) (simp_all add: num_add_assoc num_add_zero_right)

text \<open>
  What the loop computes: the total and the men total are as the specification says;
  the women total takes every row whose gender is not \<open>Men\<close>.
\<close>

lemma compute_totals_capacity:
  "total (compute_totals rows bookings) = num_sum (map Capacity rows)"
  "totals.men (compute_totals rows bookings)
     = num_sum (map Capacity (filter (\<lambda>r. Gender r = ''Men'') rows))"
  "totals.women (compute_totals rows bookings)
     = num_sum (map Capacity (filter (\<lambda>r. Gender r \<noteq> ''Men'') rows))"
  by (simp_all add: compute_totals_def capacity_loop_eq num_add_zero_left)

text \<open>
  C5, at a row whose gender is neither \<open>Men\<close> nor \<open>Women\<close>: one row of gender
  \<open>Children\<close> and capacity 5, with one Men row of capacity 10 and one Women row of
  capacity 5. The row is counted in the women total, which is 10 where the sum over the
  Women rows is 5.
\<close>

theorem totals_other_gender_counted_as_women:
  "compute_totals
     [\<lparr> Slot_ID = Num 1, Start_Time = ''08:00'', End_Time = ''09:00'', Day = ''All'',
        Gender = ''Men'', Capacity = Num 10, Date = 19723 \<rparr>,
      \<lparr> Slot_ID = Num 2, Start_Time = ''08:00'', End_Time = ''09:00'', Day = ''All'',
        Gender = ''Women'', Capacity = Num 5, Date = 19723 \<rparr>,
      \<lparr> Slot_ID = Num 3, Start_Time = ''08:00'', End_Time = ''09:00'', Day = ''All'',
        Gender = ''Children'', Capacity = Num 5, Date = 19723 \<rparr>] []
   = \<lparr> total = Num 20, men = Num 10, women = Num 10, booked = Num 0 \<rparr>"
  by (simp add: compute_totals_def booked_sum_def)

section \<open>The dates stamped on the rows\<close>

text \<open>
  In a zone with a constant offset the number of rows is, over the days of the range,
  the number of templates matching the weekday of the day.
\<close>

lemma expand_length:
  assumes "valid_day fromDay" and "valid_day toDay"
  shows "length (expand (fixed_zone tz) templates fromDay toDay)
     = (\<Sum>n\<leftarrow>[fromDay..toDay]. length (filter (matches n) templates))"
  by (simp add: expand_eq [OF assms] length_concat comp_def)

lemma Date_with_Date: "Date (with_Date r dt) = dt"
  by (simp add: with_Date_def)

lemma expand_Date_cases:
  assumes "valid_day fromDay" and "valid_day toDay"
    and "row \<in> set (expand (fixed_zone tz) templates fromDay toDay)"
  shows "\<exists>n. fromDay \<le> n \<and> n \<le> toDay \<and> Date row = fmtDate (localMidnight (fixed_zone tz) n)"
  using assms(3) by (auto simp: expand_eq [OF assms(1,2)] Date_with_Date)

text \<open>
  For a constant offset at or west of UTC the stamped date is the local day, so it
  lies in the range. For a constant offset east of UTC local midnight is still the day
  before in UTC, and every row carries the day before its local day.
\<close>

lemma expand_Date_west:
  assumes "valid_day fromDay" and "valid_day toDay" and "- 1440 < tz" and "tz \<le> 0"
    and "row \<in> set (expand (fixed_zone tz) templates fromDay toDay)"
  shows "fromDay \<le> Date row \<and> Date row \<le> toDay"
proof -
  from assms(1,2,5) obtain n where n: "fromDay \<le> n" "n \<le> toDay"
      and d: "Date row = fmtDate (localMidnight (fixed_zone tz) n)"
    using expand_Date_cases by blast
  from assms(3,4) have "(- (tz * msPerMinute)) div msPerDay = 0"
    by (simp add: msPerMinute_def msPerDay_def)
  with n d show ?thesis
    by (simp add: fmtDate_localMidnight)
qed

lemma expand_Date_east:
  assumes "valid_day fromDay" and "valid_day toDay" and "0 < tz" and "tz \<le> 1440"
    and "row \<in> set (expand (fixed_zone tz) templates fromDay toDay)"
  shows "fromDay - 1 \<le> Date row \<and> Date row \<le> toDay - 1"
proof -
  from assms(1,2,5) obtain n where n: "fromDay \<le> n" "n \<le> toDay"
      and d: "Date row = fmtDate (localMidnight (fixed_zone tz) n)"
    using expand_Date_cases by blast
  from assms(3,4) have "(- (tz * msPerMinute)) div msPerDay = - 1"
    by (intro int_div_pos_eq [where r = "msPerDay - tz * msPerMinute"])
      (simp_all add: msPerMinute_def msPerDay_def)
  with n d show ?thesis
    by (simp add: fmtDate_localMidnight)
qed

text \<open>
  C1, in the zone of Riyadh (UTC+3, offset 180 minutes), for the range from 2024-01-01
  to 2024-01-01 (day 19723, a Monday) and one template for every day: the expansion has
  the one row the count asks for, and the row's date is day 19722, 2023-12-31, outside
  the range.
\<close>

theorem expand_riyadh_date_before_range:
  "expand (fixed_zone 180)
     [\<lparr> Slot_ID = Num 1, Start_Time = ''08:00'', End_Time = ''09:00'', Day = ''All'',
        Gender = ''Men'', Capacity = Num 10 \<rparr>] 19723 19723
   = [\<lparr> Slot_ID = Num 1, Start_Time = ''08:00'', End_Time = ''09:00'', Day = ''All'',
        Gender = ''Men'', Capacity = Num 10, Date = 19722 \<rparr>]"
proof -
  have "valid_day 19723"
    by (simp add: valid_day_def)
  then show ?thesis
    by (simp add: expand_eq matches_def with_Date_def fmtDate_localMidnight
        msPerMinute_def msPerDay_def)
qed

section \<open>Properties of the conflict detection\<close>

lemma update_entry_keys: "map fst (update_entry key f cs) = map fst cs"
  by (induction cs) auto

lemma map_of_update_entry:
  "map_of (update_entry key f cs) k
     = (if k = key then map_option f (map_of cs key) else map_of cs k)"
  by (induction cs) auto

text \<open>Storing a new key at the end of the dictionary.\<close>

lemma map_of_append_fresh:
  "map_of cs key = None \<Longrightarrow> map_of (cs @ [(key, z)]) k = (if k = key then Some z else map_of cs k)"
  by (induction cs) (auto split: if_splits)

lemma conflict_step_keys:
  "map fst (conflict_step r cs)
     = (if map_of cs (Date r, Slot_ID r) = None then map fst cs @ [(Date r, Slot_ID r)]
        else map fst cs)"
  by (simp add: conflict_step_def Let_def update_entry_keys)

lemma conflict_step_distinct:
  "distinct (map fst cs) \<Longrightarrow> distinct (map fst (conflict_step r cs))"
  by (auto simp: conflict_step_keys map_of_eq_None_iff)

lemma conflicts_loop_distinct:
  "distinct (map fst cs) \<Longrightarrow> distinct (map fst (conflicts_loop rs cs))"
  by (induction rs arbitrary: cs) (simp_all add: conflict_step_distinct)

lemma conflict_step_other:
  "k \<noteq> (Date r, Slot_ID r) \<Longrightarrow> map_of (conflict_step r cs) k = map_of cs k"
  by (auto simp: conflict_step_def Let_def map_of_update_entry map_of_append_fresh
      simp del: map_of_append)

lemma conflict_step_same:
  "\<exists>v. map_of (conflict_step r cs) (Date r, Slot_ID r) = Some v
     \<and> tally.men v = (case map_of cs (Date r, Slot_ID r) of None \<Rightarrow> 0 | Some u \<Rightarrow> tally.men u)
          + (if Gender r = ''Men'' then positive01 (Capacity r) else 0)
     \<and> tally.women v = (case map_of cs (Date r, Slot_ID r) of None \<Rightarrow> 0 | Some u \<Rightarrow> tally.women u)
          + (if Gender r = ''Women'' then positive01 (Capacity r) else 0)"
  by (cases "map_of cs (Date r, Slot_ID r)")
    (auto simp: conflict_step_def Let_def map_of_update_entry map_of_append_fresh
      simp del: map_of_append)

lemma conflict_step_stored_men:
  "stored_men (conflict_step r cs) k = stored_men cs k
     + (if k = (Date r, Slot_ID r) \<and> Gender r = ''Men'' then positive01 (Capacity r) else 0)"
proof (cases "k = (Date r, Slot_ID r)")
  case True
  with conflict_step_same [of r cs] show ?thesis
    by (auto simp: stored_men_def)
next
  case False
  then show ?thesis
    by (simp add: stored_men_def conflict_step_other)
qed

lemma conflict_step_stored_women:
  "stored_women (conflict_step r cs) k = stored_women cs k
     + (if k = (Date r, Slot_ID r) \<and> Gender r = ''Women'' then positive01 (Capacity r) else 0)"
proof (cases "k = (Date r, Slot_ID r)")
  case True
  with conflict_step_same [of r cs] show ?thesis
    by (auto simp: stored_women_def)
next
  case False
  then show ?thesis
    by (simp add: stored_women_def conflict_step_other)
qed

text \<open>
  After the loop, the men counter of a key is the number of Men rows of that group with
  a capacity above 0, and likewise for women.
\<close>

lemma conflicts_loop_stored_men:
  "stored_men (conflicts_loop rs cs) k = stored_men cs k
     + length (filter (\<lambda>r. (Date r, Slot_ID r) = k \<and> Gender r = ''Men'' \<and> num_pos (Capacity r)) rs)"
  by (induction rs arbitrary: cs) (auto simp: conflict_step_stored_men positive01_def)

lemma conflicts_loop_stored_women:
  "stored_women (conflicts_loop rs cs) k = stored_women cs k
     + length (filter (\<lambda>r. (Date r, Slot_ID r) = k \<and> Gender r = ''Women'' \<and> num_pos (Capacity r)) rs)"
  by (induction rs arbitrary: cs) (auto simp: conflict_step_stored_women positive01_def)

lemma filter_nonempty_iff: "filter P xs \<noteq> [] \<longleftrightarrow> list_ex P xs"
  by (induction xs) auto

lemma flagged_iff_stored:
  assumes "distinct (map fst cs)"
  shows "k \<in> fst ` set (filter (\<lambda>(k, v). 0 < tally.men v \<and> 0 < tally.women v) cs)
     \<longleftrightarrow> 0 < stored_men cs k \<and> 0 < stored_women cs k"
proof
  assume "k \<in> fst ` set (filter (\<lambda>(k, v). 0 < tally.men v \<and> 0 < tally.women v) cs)"
  then obtain v where "(k, v) \<in> set cs" and "0 < tally.men v" and "0 < tally.women v"
    by auto
  with assms show "0 < stored_men cs k \<and> 0 < stored_women cs k"
    by (simp add: stored_men_def stored_women_def)
next
  assume pos: "0 < stored_men cs k \<and> 0 < stored_women cs k"
  then obtain v where v: "map_of cs k = Some v"
    by (cases "map_of cs k") (simp_all add: stored_men_def)
  then have "(k, v) \<in> set cs"
    by (rule map_of_SomeD)
  moreover from pos v have "0 < tally.men v \<and> 0 < tally.women v"
    by (simp add: stored_men_def stored_women_def)
  ultimately show "k \<in> fst ` set (filter (\<lambda>(k, v). 0 < tally.men v \<and> 0 < tally.women v) cs)"
    by force
qed

text \<open>
  C4. A (date, slot id) pair is among the flagged entries exactly when its group has a
  Men row with capacity above 0 and a Women row with capacity above 0. One Men row of
  capacity 3 and one Women row of capacity 2 on the same date and slot give that pair
  as the only flagged entry; with the Women capacity 0 nothing is flagged.
\<close>

theorem conflict_flagged_iff:
  "(key \<in> fst ` set (bad expanded)
      \<longleftrightarrow> positive_in_group ''Men'' key expanded \<and> positive_in_group ''Women'' key expanded)
   \<and> map fst (bad
        [\<lparr> Slot_ID = Num 7, Start_Time = ''08:00'', End_Time = ''09:00'', Day = ''All'',
           Gender = ''Men'', Capacity = Num 3, Date = 19723 \<rparr>,
         \<lparr> Slot_ID = Num 7, Start_Time = ''08:00'', End_Time = ''09:00'', Day = ''All'',
           Gender = ''Women'', Capacity = Num 2, Date = 19723 \<rparr>]) = [(19723, Num 7)]
   \<and> bad
        [\<lparr> Slot_ID = Num 7, Start_Time = ''08:00'', End_Time = ''09:00'', Day = ''All'',
           Gender = ''Men'', Capacity = Num 3, Date = 19723 \<rparr>,
         \<lparr> Slot_ID = Num 7, Start_Time = ''08:00'', End_Time = ''09:00'', Day = ''All'',
           Gender = ''Women'', Capacity = Num 0, Date = 19723 \<rparr>] = []"
proof (intro conjI)
  have "distinct (map fst (conflicts_loop expanded []))"
    by (rule conflicts_loop_distinct) simp
  then have "key \<in> fst ` set (bad expanded)
      \<longleftrightarrow> 0 < stored_men (conflicts_loop expanded []) key
        \<and> 0 < stored_women (conflicts_loop expanded []) key"
    unfolding bad_def by (rule flagged_iff_stored)
  moreover have "stored_men [] key = 0" and "stored_women [] key = 0"
    by (simp_all add: stored_men_def stored_women_def)
  ultimately show "key \<in> fst ` set (bad expanded)
      \<longleftrightarrow> positive_in_group ''Men'' key expanded \<and> positive_in_group ''Women'' key expanded"
    by (simp add: conflicts_loop_stored_men conflicts_loop_stored_women positive_in_group_def
        filter_nonempty_iff)
qed (simp_all add: bad_def conflict_step_def positive01_def)

theorem conflict_flagged_iff_witness:
  "(19723, Num 7) \<in> fst ` set (bad
        [\<lparr> Slot_ID = Num 7, Start_Time = ''08:00'', End_Time = ''09:00'', Day = ''All'',
           Gender = ''Men'', Capacity = Num 3, Date = 19723 \<rparr>,
         \<lparr> Slot_ID = Num 7, Start_Time = ''08:00'', End_Time = ''09:00'', Day = ''All'',
           Gender = ''Women'', Capacity = Num 2, Date = 19723 \<rparr>,
         \<lparr> Slot_ID = Num 8, Start_Time = ''09:00'', End_Time = ''10:00'', Day = ''All'',
           Gender = ''Men'', Capacity = Num 4, Date = 19723 \<rparr>])
   \<and> (19723, Num 8) \<notin> fst ` set (bad
        [\<lparr> Slot_ID = Num 7, Start_Time = ''08:00'', End_Time = ''09:00'', Day = ''All'',
           Gender = ''Men'', Capacity = Num 3, Date = 19723 \<rparr>,
         \<lparr> Slot_ID = Num 7, Start_Time = ''08:00'', End_Time = ''09:00'', Day = ''All'',
           Gender = ''Women'', Capacity = Num 2, Date = 19723 \<rparr>,
         \<lparr> Slot_ID = Num 8, Start_Time = ''09:00'', End_Time = ''10:00'', Day = ''All'',
           Gender = ''Men'', Capacity = Num 4, Date = 19723 \<rparr>])"
  using conflict_flagged_iff [of "(19723, Num 7)"
        "[\<lparr> Slot_ID = Num 7, Start_Time = ''08:00'', End_Time = ''09:00'', Day = ''All'',
           Gender = ''Men'', Capacity = Num 3, Date = 19723 \<rparr>,
         \<lparr> Slot_ID = Num 7, Start_Time = ''08:00'', End_Time = ''09:00'', Day = ''All'',
           Gender = ''Women'', Capacity = Num 2, Date = 19723 \<rparr>,
         \<lparr> Slot_ID = Num 8, Start_Time = ''09:00'', End_Time = ''10:00'', Day = ''All'',
           Gender = ''Men'', Capacity = Num 4, Date = 19723 \<rparr>]"]
    conflict_flagged_iff [of "(19723, Num 8)"
        "[\<lparr> Slot_ID = Num 7, Start_Time = ''08:00'', End_Time = ''09:00'', Day = ''All'',
           Gender = ''Men'', Capacity = Num 3, Date = 19723 \<rparr>,
         \<lparr> Slot_ID = Num 7, Start_Time = ''08:00'', End_Time = ''09:00'', Day = ''All'',
           Gender = ''Women'', Capacity = Num 2, Date = 19723 \<rparr>,
         \<lparr> Slot_ID = Num 8, Start_Time = ''09:00'', End_Time = ''10:00'', Day = ''All'',
           Gender = ''Men'', Capacity = Num 4, Date = 19723 \<rparr>]"]
  by (simp add: positive_in_group_def)

section \<open>Properties of the handler\<close>

lemma headerOk_Nil: "\<not> headerOk []"
  by (simp add: headerOk_def required_def keys_def)

lemma headerOk_Cons:
  "headerOk (r # rs) \<longleftrightarrow>
     {''Slot_ID'', ''Start_Time'', ''End_Time'', ''Day'', ''Gender'', ''Capacity''} \<subseteq> set (keys r)"
  by (simp add: headerOk_def required_def)

lemma invalid_headers_message:
  "''Invalid headers. Expected: '' @ join '', '' required
     = ''Invalid headers. Expected: Slot_ID, Start_Time, End_Time, Day, Gender, Capacity''"
  by (simp add: required_def)

lemma preview_Rows:
  "preview s2n z (Rows rows) a b =
     (if headerOk rows
      then Inr (expand z (map (norm_row s2n) rows) a b,
                length (bad (expand z (map (norm_row s2n) rows) a b)))
      else Inl ''Invalid headers. Expected: Slot_ID, Start_Time, End_Time, Day, Gender, Capacity'')"
  by (simp add: preview_def Let_def required_def)

text \<open>What the handler does when something is thrown: only \<open>loading\<close> is cleared.\<close>

lemma handler_on_throw:
  assumes "excelFile st = Some file" and "fromDate st = Some a" and "toDate st = Some b"
    and "preview s2n z file a b = Inl m"
  shows "handleValidatePreview s2n z st = (st\<lparr> loading := False \<rparr>, ErrorAlert m)"
  using assms by (simp add: handleValidatePreview_def)

lemma handler_on_success:
  assumes "excelFile st = Some file" and "fromDate st = Some a" and "toDate st = Some b"
    and "preview s2n z file a b = Inr (expanded, n)"
  shows "handleValidatePreview s2n z st
     = (st\<lparr> loading := False, imported := expanded \<rparr>, PreviewReady (length expanded) n)"
  using assms by (simp add: handleValidatePreview_def)

text \<open>
  C10. Header validation looks at the keys of the first data row only. With no data
  rows (as for a sheet that has its header row and nothing below it) it fails, and the
  handler shows the invalid-headers error. With at least one data row, validation
  passes, and the preview goes through, exactly when the keys of the first row include
  all of Slot\_ID, Start\_Time, End\_Time, Day, Gender and Capacity.
\<close>

theorem header_validation_first_row_only:
  "\<not> headerOk []
   \<and> handleValidatePreview s2n z
        \<lparr> fromDate = Some a, toDate = Some b, excelFile = Some (Rows []),
          loading = l, imported = old \<rparr>
       = (\<lparr> fromDate = Some a, toDate = Some b, excelFile = Some (Rows []),
            loading = False, imported = old \<rparr>,
          ErrorAlert ''Invalid headers. Expected: Slot_ID, Start_Time, End_Time, Day, Gender, Capacity'')
   \<and> (headerOk (r # rs) \<longleftrightarrow>
        {''Slot_ID'', ''Start_Time'', ''End_Time'', ''Day'', ''Gender'', ''Capacity''}
          \<subseteq> set (keys r))
   \<and> ((\<exists>res. preview s2n z (Rows (r # rs)) a b = Inr res) \<longleftrightarrow>
        {''Slot_ID'', ''Start_Time'', ''End_Time'', ''Day'', ''Gender'', ''Capacity''}
          \<subseteq> set (keys r))"
proof (intro conjI)
  show "\<not> headerOk []"
    by (rule headerOk_Nil)
  show "handleValidatePreview s2n z
        \<lparr> fromDate = Some a, toDate = Some b, excelFile = Some (Rows []),
          loading = l, imported = old \<rparr>
       = (\<lparr> fromDate = Some a, toDate = Some b, excelFile = Some (Rows []),
            loading = False, imported = old \<rparr>,
          ErrorAlert ''Invalid headers. Expected: Slot_ID, Start_Time, End_Time, Day, Gender, Capacity'')"
    by (simp add: handleValidatePreview_def preview_Rows headerOk_Nil)
  show "headerOk (r # rs) \<longleftrightarrow>
        {''Slot_ID'', ''Start_Time'', ''End_Time'', ''Day'', ''Gender'', ''Capacity''}
          \<subseteq> set (keys r)"
    by (rule headerOk_Cons)
  show "(\<exists>res. preview s2n z (Rows (r # rs)) a b = Inr res) \<longleftrightarrow>
        {''Slot_ID'', ''Start_Time'', ''End_Time'', ''Day'', ''Gender'', ''Capacity''}
          \<subseteq> set (keys r)"
    by (simp add: preview_Rows headerOk_Cons)
qed

text \<open>
  C9. When validate-and-preview does not end with the preview message (it shows an
  error, after something was thrown while reading or parsing or after the header
  check failed, or it asks for the inputs), the imported rows held before are
  unchanged.
\<close>

theorem failed_preview_keeps_imported:
  assumes "handleValidatePreview s2n z st = (st', a)"
    and "\<forall>n c. a \<noteq> PreviewReady n c"
  shows "imported st' = imported st"
  using assms
  by (auto simp: handleValidatePreview_def split: option.splits sum.splits prod.splits)

theorem failed_preview_keeps_imported_witness:
  "handleValidatePreview (\<lambda>s. NaN) (fixed_zone 180)
     \<lparr> fromDate = Some 19723, toDate = Some 19724,
       excelFile = Some (Rows [[(''Slot_ID'', Number (Num 1)), (''Day'', Str ''All'')]]),
       loading = True,
       imported = [\<lparr> Slot_ID = Num 7, Start_Time = ''08:00'', End_Time = ''09:00'',
                     Day = ''All'', Gender = ''Men'', Capacity = Num 3, Date = 19700 \<rparr>] \<rparr>
   = (\<lparr> fromDate = Some 19723, toDate = Some 19724,
        excelFile = Some (Rows [[(''Slot_ID'', Number (Num 1)), (''Day'', Str ''All'')]]),
        loading = False,
        imported = [\<lparr> Slot_ID = Num 7, Start_Time = ''08:00'', End_Time = ''09:00'',
                      Day = ''All'', Gender = ''Men'', Capacity = Num 3, Date = 19700 \<rparr>] \<rparr>,
      ErrorAlert ''Invalid headers. Expected: Slot_ID, Start_Time, End_Time, Day, Gender, Capacity'')
   \<and> imported (fst (handleValidatePreview (\<lambda>s. NaN) (fixed_zone 180)
     \<lparr> fromDate = Some 19723, toDate = Some 19724,
       excelFile = Some (Rows [[(''Slot_ID'', Number (Num 1)), (''Day'', Str ''All'')]]),
       loading = True,
       imported = [\<lparr> Slot_ID = Num 7, Start_Time = ''08:00'', End_Time = ''09:00'',
                     Day = ''All'', Gender = ''Men'', Capacity = Num 3, Date = 19700 \<rparr>] \<rparr>))
     = [\<lparr> Slot_ID = Num 7, Start_Time = ''08:00'', End_Time = ''09:00'',
          Day = ''All'', Gender = ''Men'', Capacity = Num 3, Date = 19700 \<rparr>]"
proof -
  let ?st = "\<lparr> fromDate = Some 19723, toDate = Some 19724,
       excelFile = Some (Rows [[(''Slot_ID'', Number (Num 1)), (''Day'', Str ''All'')]]),
       loading = True,
       imported = [\<lparr> Slot_ID = Num 7, Start_Time = ''08:00'', End_Time = ''09:00'',
                     Day = ''All'', Gender = ''Men'', Capacity = Num 3, Date = 19700 \<rparr>] \<rparr>"
  let ?msg = "''Invalid headers. Expected: Slot_ID, Start_Time, End_Time, Day, Gender, Capacity''"
  have run: "handleValidatePreview (\<lambda>s. NaN) (fixed_zone 180) ?st = (?st\<lparr> loading := False \<rparr>, ErrorAlert ?msg)"
    by (simp add: handleValidatePreview_def preview_Rows headerOk_Cons keys_def)
  have fails: "\<forall>n c. ErrorAlert ?msg \<noteq> PreviewReady n c"
    by simp
  from failed_preview_keeps_imported [OF run fails] run show ?thesis
    by simp
qed

end
